theory Spec2Isabelle
  imports Main
begin

section \<open>The C fragment used by scope.h\<close>

text \<open>
  The macros of \<^verbatim>\<open>scope.h\<close> expand to nested \<^verbatim>\<open>for\<close> statements. Their meaning is
  the meaning of C's \<^verbatim>\<open>for\<close>, \<^verbatim>\<open>break\<close>, \<^verbatim>\<open>continue\<close>, \<^verbatim>\<open>return\<close>, of the comma, conditional,
  negation, cast-to-void and assignment operators, and of a declaration in the first
  clause of a \<^verbatim>\<open>for\<close>. These are embedded as functions on an explicit program state.

  A statement ends in one of four ways: it falls through, or it leaves by
  \<^verbatim>\<open>break\<close>, \<^verbatim>\<open>continue\<close> or \<^verbatim>\<open>return\<close>. Jumps by \<^verbatim>\<open>goto\<close> or \<^verbatim>\<open>longjmp\<close> are not part of
  the fragment.
\<close>

datatype status = Normal | Break | Continue | Return

text \<open>
  An expression yields a value and a new state; a statement yields how it ended and a
  new state. \<open>None\<close> means that evaluation does not come back (it runs forever, or the
  program is aborted).
\<close>

type_synonym ('a, 's) expr = "'s \<Rightarrow> ('a \<times> 's) option"
type_synonym 's stmt = "'s \<Rightarrow> (status \<times> 's) option"

definition lit :: "int \<Rightarrow> (int, 's) expr" where
  \<comment> \<open>an integer constant such as \<^verbatim>\<open>0\<close> or \<^verbatim>\<open>1\<close>\<close>
  "lit n = (\<lambda>s. Some (n, s))"

definition no_expr :: "(unit, 's) expr" where
  \<comment> \<open>an omitted clause of a \<^verbatim>\<open>for\<close> statement\<close>
  "no_expr = (\<lambda>s. Some ((), s))"

definition void_cast :: "('a, 's) expr \<Rightarrow> (unit, 's) expr" where
  \<comment> \<open>\<^verbatim>\<open>(void)(e)\<close>: \<open>e\<close> is evaluated and its value is discarded\<close>
  "void_cast e = (\<lambda>s. case e s of None \<Rightarrow> None | Some (v, s') \<Rightarrow> Some ((), s'))"

definition comma :: "('a, 's) expr \<Rightarrow> ('b, 's) expr \<Rightarrow> ('b, 's) expr" where
  \<comment> \<open>\<^verbatim>\<open>e1, e2\<close>: \<open>e1\<close> first, its value dropped, then \<open>e2\<close>\<close>
  "comma e1 e2 = (\<lambda>s. case e1 s of None \<Rightarrow> None | Some (v, s') \<Rightarrow> e2 s')"

definition cond_expr :: "(int, 's) expr \<Rightarrow> ('a, 's) expr \<Rightarrow> ('a, 's) expr \<Rightarrow> ('a, 's) expr" where
  \<comment> \<open>\<^verbatim>\<open>c ? t : f\<close>: only the selected branch is evaluated\<close>
  "cond_expr c t f =
     (\<lambda>s. case c s of None \<Rightarrow> None | Some (v, s') \<Rightarrow> if v \<noteq> 0 then t s' else f s')"

definition not_expr :: "(int, 's) expr \<Rightarrow> (int, 's) expr" where
  \<comment> \<open>\<^verbatim>\<open>!e\<close>\<close>
  "not_expr e =
     (\<lambda>s. case e s of None \<Rightarrow> None | Some (v, s') \<Rightarrow> Some (if v = 0 then 1 else 0, s'))"

subsection \<open>Local variables\<close>

text \<open>
  A variable declared in the first clause of a \<^verbatim>\<open>for\<close> lives in a frame in front of the
  state of the enclosing code: inside the loop the state is a pair of the local and the
  outer state. Code that does not name the innermost local is run on the outer state
  and leaves the local alone.
\<close>

definition outer_e :: "('a, 's) expr \<Rightarrow> ('a, 'l \<times> 's) expr" where
  "outer_e e = (\<lambda>(l, s). case e s of None \<Rightarrow> None | Some (v, s') \<Rightarrow> Some (v, (l, s')))"

definition outer_s :: "'s stmt \<Rightarrow> ('l \<times> 's) stmt" where
  "outer_s b = (\<lambda>(l, s). case b s of None \<Rightarrow> None | Some (st, s') \<Rightarrow> Some (st, (l, s')))"

text \<open>
  Code that names the innermost local \<open>v\<close> and the outer state, but not the local \<open>l\<close>
  declared between the two.
\<close>

definition past_e :: "('a, 'v \<times> 's) expr \<Rightarrow> ('a, 'v \<times> 'l \<times> 's) expr" where
  "past_e e =
     (\<lambda>(v, l, s). case e (v, s) of None \<Rightarrow> None | Some (r, (v', s')) \<Rightarrow> Some (r, (v', l, s')))"

definition past_s :: "('v \<times> 's) stmt \<Rightarrow> ('v \<times> 'l \<times> 's) stmt" where
  "past_s b =
     (\<lambda>(v, l, s). case b (v, s) of None \<Rightarrow> None | Some (st, (v', s')) \<Rightarrow> Some (st, (v', l, s')))"

subsection \<open>The run-state flag\<close>

text \<open>
  \<^verbatim>\<open>_Bool _se350_loop_has_run\<close>. Next to its value the frame counts the stores that
  changed the flag from 0 to 1. The count is an observer: no expression reads it.
\<close>

record run_flag =
  has_run :: bool
  raised :: nat

definition flag_decl :: "(int, 's) expr \<Rightarrow> (run_flag, 's) expr" where
  \<comment> \<open>\<^verbatim>\<open>_Bool _se350_loop_has_run = e\<close>: the initialiser converted to \<^verbatim>\<open>_Bool\<close>\<close>
  "flag_decl e =
     (\<lambda>s. case e s of None \<Rightarrow> None
          | Some (v, s') \<Rightarrow> Some (\<lparr>has_run = (v \<noteq> 0), raised = 0\<rparr>, s'))"

definition flag_read :: "(int, run_flag \<times> 's) expr" where
  \<comment> \<open>\<^verbatim>\<open>_se350_loop_has_run\<close> as an rvalue\<close>
  "flag_read = (\<lambda>(f, s). Some (if has_run f then 1 else 0, (f, s)))"

definition flag_assign :: "(int, run_flag \<times> 's) expr \<Rightarrow> (int, run_flag \<times> 's) expr" where
  \<comment> \<open>\<^verbatim>\<open>_se350_loop_has_run = e\<close>: stores \<open>e\<close> converted to \<^verbatim>\<open>_Bool\<close> and yields the stored value\<close>
  "flag_assign e =
     (\<lambda>fs. case e fs of None \<Rightarrow> None
           | Some (v, (f, s)) \<Rightarrow>
               Some (if v \<noteq> 0 then 1 else 0,
                     (\<lparr>has_run = (v \<noteq> 0),
                       raised = raised f + (if \<not> has_run f \<and> v \<noteq> 0 then 1 else 0)\<rparr>, s)))"

subsection \<open>Statements\<close>

definition break_stmt :: "'s stmt" where
  "break_stmt = (\<lambda>s. Some (Break, s))"

definition continue_stmt :: "'s stmt" where
  "continue_stmt = (\<lambda>s. Some (Continue, s))"

definition return_stmt :: "'s stmt" where
  "return_stmt = (\<lambda>s. Some (Return, s))"

definition if_stmt :: "(int, 's) expr \<Rightarrow> 's stmt \<Rightarrow> 's stmt" where
  \<comment> \<open>\<^verbatim>\<open>if (c) body\<close>\<close>
  "if_stmt c body =
     (\<lambda>s. case c s of None \<Rightarrow> None
          | Some (v, s') \<Rightarrow> if v \<noteq> 0 then body s' else Some (Normal, s'))"

text \<open>
  A compound statement \<^verbatim>\<open>{ s1 s2 ... }\<close>: the statements run in order, and the first one
  that does not fall through ends the block with its status.
\<close>

fun block_stmt :: "'s stmt list \<Rightarrow> 's stmt" where
  "block_stmt [] s = Some (Normal, s)"
| "block_stmt (c # cs) s =
     (case c s of None \<Rightarrow> None
      | Some (st, s') \<Rightarrow> if st = Normal then block_stmt cs s' else Some (st, s'))"

text \<open>
  \<^verbatim>\<open>for (; cond; step) body\<close>. The condition is tested before each pass. A \<^verbatim>\<open>break\<close> in
  the body leaves the loop without evaluating \<open>step\<close>; a \<^verbatim>\<open>return\<close> leaves the loop and
  every enclosing statement; after a fall-through or a \<^verbatim>\<open>continue\<close> the step expression
  is evaluated and the condition is tested again. The loop may run forever.
\<close>

partial_function (option) for_loop ::
  "(int, 's) expr \<Rightarrow> ('a, 's) expr \<Rightarrow> 's stmt \<Rightarrow> 's \<Rightarrow> (status \<times> 's) option" where
  "for_loop cond step body s =
     (case cond s of None \<Rightarrow> None
      | Some (c, s1) \<Rightarrow>
          if c = 0 then Some (Normal, s1)
          else (case body s1 of None \<Rightarrow> None
                | Some (st, s2) \<Rightarrow>
                    (case st of
                       Break \<Rightarrow> Some (Normal, s2)
                     | Return \<Rightarrow> Some (Return, s2)
                     | _ \<Rightarrow> (case step s2 of None \<Rightarrow> None
                             | Some (x, s3) \<Rightarrow> for_loop cond step body s3))))"

text \<open>
  \<^verbatim>\<open>for (T l = init; cond; step) body\<close>. The local is created from its initialiser,
  the loop runs with the local in scope, and the local is gone when the loop is left.
  \<open>for_live\<close> is the loop up to the point where it is left, the local still there.
\<close>

definition for_live ::
  "('l, 's) expr \<Rightarrow> (int, 'l \<times> 's) expr \<Rightarrow> ('a, 'l \<times> 's) expr \<Rightarrow> ('l \<times> 's) stmt
   \<Rightarrow> 's \<Rightarrow> (status \<times> 'l \<times> 's) option" where
  "for_live init cond step body =
     (\<lambda>s. case init s of None \<Rightarrow> None | Some (l, s1) \<Rightarrow> for_loop cond step body (l, s1))"

definition for_decl ::
  "('l, 's) expr \<Rightarrow> (int, 'l \<times> 's) expr \<Rightarrow> ('a, 'l \<times> 's) expr \<Rightarrow> ('l \<times> 's) stmt \<Rightarrow> 's stmt" where
  "for_decl init cond step body =
     (\<lambda>s. case for_live init cond step body s of None \<Rightarrow> None
          | Some (st, (l, s')) \<Rightarrow> Some (st, s'))"

section \<open>scope.h\<close>

text \<open>
  \<^verbatim>\<open>#define SE350_SCOPE(before_expr, after_expr) \
    for (_Bool _se350_loop_has_run = 0;
         _se350_loop_has_run ? 0 : ((void)(before_expr), 1);
         ((void)(after_expr), _se350_loop_has_run = 1)) \
        for (; !_se350_loop_has_run; _se350_loop_has_run = 1)\<close>

  followed by the guarded statement \<open>body\<close>. The expressions and the body are the
  caller's: they are written against the caller's state and do not name the flag.
\<close>

definition SE350_SCOPE :: "('a, 's) expr \<Rightarrow> ('b, 's) expr \<Rightarrow> 's stmt \<Rightarrow> 's stmt" where
  "SE350_SCOPE before_expr after_expr body =
     for_decl (flag_decl (lit 0))
       (cond_expr flag_read (lit 0) (comma (void_cast (outer_e before_expr)) (lit 1)))
       (comma (void_cast (outer_e after_expr)) (flag_assign (lit 1)))
       (for_loop (not_expr flag_read) (flag_assign (lit 1)) (outer_s body))"

text \<open>
  The same statement up to the point where the outer loop is left, the flag still in
  scope.
\<close>

definition SE350_SCOPE_live ::
  "('a, 's) expr \<Rightarrow> ('b, 's) expr \<Rightarrow> 's stmt \<Rightarrow> 's \<Rightarrow> (status \<times> run_flag \<times> 's) option" where
  "SE350_SCOPE_live before_expr after_expr body =
     for_live (flag_decl (lit 0))
       (cond_expr flag_read (lit 0) (comma (void_cast (outer_e before_expr)) (lit 1)))
       (comma (void_cast (outer_e after_expr)) (flag_assign (lit 1)))
       (for_loop (not_expr flag_read) (flag_assign (lit 1)) (outer_s body))"

text \<open>\<^verbatim>\<open>#define SE350_SCOPE_EXIT(after_expr) SE350_SCOPE(0, after_expr)\<close>\<close>

definition SE350_SCOPE_EXIT :: "('b, 's) expr \<Rightarrow> 's stmt \<Rightarrow> 's stmt" where
  "SE350_SCOPE_EXIT after_expr body = SE350_SCOPE (lit 0) after_expr body"

text \<open>
  \<^verbatim>\<open>#define SE350_USING(decl, after_expr) \
    for (_Bool _se350_loop_has_run = 0; !_se350_loop_has_run;) \
        for (decl; !_se350_loop_has_run; ((void)(after_expr), _se350_loop_has_run = 1)) \
            for (; !_se350_loop_has_run; _se350_loop_has_run = 1)\<close>

  \<open>decl\<close> is the initialiser of the declared variable, evaluated in the caller's state.
  \<open>after_expr\<close> and the body see the declared variable in front of the caller's state.
\<close>

definition SE350_USING ::
  "('v, 's) expr \<Rightarrow> ('b, 'v \<times> 's) expr \<Rightarrow> ('v \<times> 's) stmt \<Rightarrow> 's stmt" where
  "SE350_USING decl after_expr body =
     for_decl (flag_decl (lit 0)) (not_expr flag_read) no_expr
       (for_decl (outer_e decl)
          (not_expr (outer_e flag_read))
          (comma (void_cast (past_e after_expr)) (outer_e (flag_assign (lit 1))))
          (for_loop (not_expr (outer_e flag_read)) (outer_e (flag_assign (lit 1)))
             (past_s body)))"

text \<open>
  The same statement up to the point where the outermost loop is left, the flag still
  in scope.
\<close>

definition SE350_USING_live ::
  "('v, 's) expr \<Rightarrow> ('b, 'v \<times> 's) expr \<Rightarrow> ('v \<times> 's) stmt
   \<Rightarrow> 's \<Rightarrow> (status \<times> run_flag \<times> 's) option" where
  "SE350_USING_live decl after_expr body =
     for_live (flag_decl (lit 0)) (not_expr flag_read) no_expr
       (for_decl (outer_e decl)
          (not_expr (outer_e flag_read))
          (comma (void_cast (past_e after_expr)) (outer_e (flag_assign (lit 1))))
          (for_loop (not_expr (outer_e flag_read)) (outer_e (flag_assign (lit 1)))
             (past_s body)))"

text \<open>\<^verbatim>\<open>#define SE350_SCOPE_BREAK break\<close>\<close>

definition SE350_SCOPE_BREAK :: "'s stmt" where
  "SE350_SCOPE_BREAK = break_stmt"

section \<open>Callers\<close>

text \<open>
  An enclosing counting loop, \<^verbatim>\<open>for (int i = 0; i < n; i++) body\<close>, whose body does not
  name \<open>i\<close>.
\<close>

definition counted_loop :: "int \<Rightarrow> 's stmt \<Rightarrow> 's stmt" where
  "counted_loop n body =
     for_decl (lit 0)
       (\<lambda>(i, s). Some (if i < n then 1 else 0, (i, s)))
       (\<lambda>(i, s). Some (i, (i + 1, s)))
       (outer_s body)"

text \<open>
  Calls and statements that leave a line in a log, as \<^verbatim>\<open>printf\<close> does in
  \<^verbatim>\<open>usage.c\<close>; the state of these callers is the log.
\<close>

definition call :: "string \<Rightarrow> (int, string list) expr" where
  "call name = (\<lambda>log. Some (0, log @ [name]))"

definition emit :: "string \<Rightarrow> string list stmt" where
  "emit name = (\<lambda>log. Some (Normal, log @ [name]))"

definition acquire :: "string \<Rightarrow> (string, string list) expr" where
  \<comment> \<open>the initialiser of a declaration such as \<^verbatim>\<open>int* p = request_memory_block()\<close>\<close>
  "acquire p = (\<lambda>log. Some (p, log @ [''request '' @ p]))"

definition release :: "(int, string \<times> string list) expr" where
  \<comment> \<open>a call such as \<^verbatim>\<open>log_release(p)\<close> on the declared variable\<close>
  "release = (\<lambda>(p, log). Some (0, (p, log @ [''release '' @ p])))"

text \<open>
  A caller with one variable \<^verbatim>\<open>x\<close>: the assignment \<^verbatim>\<open>x = n\<close> and the statement
  \<^verbatim>\<open>assert(c);\<close>, which aborts the program when \<open>c\<close> is false.
\<close>

record caller_vars =
  var_x :: int

definition assign_x :: "int \<Rightarrow> (int, caller_vars) expr" where
  "assign_x n = (\<lambda>s. Some (n, s\<lparr>var_x := n\<rparr>))"

definition assert_stmt :: "('s \<Rightarrow> bool) \<Rightarrow> 's stmt" where
  "assert_stmt c = (\<lambda>s. if c s then Some (Normal, s) else None)"

section \<open>Evaluation of expressions\<close>

lemma lit_app: "lit n s = Some (n, s)"
  by (simp add: lit_def)

lemma no_expr_app: "no_expr s = Some ((), s)"
  by (simp add: no_expr_def)

lemma void_cast_app:
  "void_cast e s = (case e s of None \<Rightarrow> None | Some (v, s') \<Rightarrow> Some ((), s'))"
  by (simp add: void_cast_def)

lemma comma_app: "comma e1 e2 s = (case e1 s of None \<Rightarrow> None | Some (v, s') \<Rightarrow> e2 s')"
  by (simp add: comma_def)

lemma cond_expr_app:
  "cond_expr c t f s =
     (case c s of None \<Rightarrow> None | Some (v, s') \<Rightarrow> if v \<noteq> 0 then t s' else f s')"
  by (simp add: cond_expr_def)

lemma not_expr_app:
  "not_expr e s =
     (case e s of None \<Rightarrow> None | Some (v, s') \<Rightarrow> Some (if v = 0 then 1 else 0, s'))"
  by (simp add: not_expr_def)

lemma outer_e_app:
  "outer_e e (l, s) = (case e s of None \<Rightarrow> None | Some (v, s') \<Rightarrow> Some (v, (l, s')))"
  by (simp add: outer_e_def)

lemma outer_s_app:
  "outer_s b (l, s) = (case b s of None \<Rightarrow> None | Some (st, s') \<Rightarrow> Some (st, (l, s')))"
  by (simp add: outer_s_def)

lemma past_e_app:
  "past_e e (v, l, s) =
     (case e (v, s) of None \<Rightarrow> None | Some (r, (v', s')) \<Rightarrow> Some (r, (v', l, s')))"
  by (simp add: past_e_def)

lemma past_s_app:
  "past_s b (v, l, s) =
     (case b (v, s) of None \<Rightarrow> None | Some (st, (v', s')) \<Rightarrow> Some (st, (v', l, s')))"
  by (simp add: past_s_def)

lemma flag_decl_app:
  "flag_decl e s =
     (case e s of None \<Rightarrow> None
      | Some (v, s') \<Rightarrow> Some (\<lparr>has_run = (v \<noteq> 0), raised = 0\<rparr>, s'))"
  by (simp add: flag_decl_def)

lemma flag_read_app: "flag_read (f, s) = Some (if has_run f then 1 else 0, (f, s))"
  by (simp add: flag_read_def)

lemma flag_assign_app:
  "flag_assign e fs =
     (case e fs of None \<Rightarrow> None
      | Some (v, (f, s)) \<Rightarrow>
          Some (if v \<noteq> 0 then 1 else 0,
                (\<lparr>has_run = (v \<noteq> 0),
                  raised = raised f + (if \<not> has_run f \<and> v \<noteq> 0 then 1 else 0)\<rparr>, s)))"
  by (simp add: flag_assign_def)

lemmas expr_app = lit_app no_expr_app void_cast_app comma_app cond_expr_app not_expr_app
  outer_e_app outer_s_app past_e_app past_s_app flag_decl_app flag_read_app flag_assign_app

lemma call_app: "call name log = Some (0, log @ [name])"
  by (simp add: call_def)

lemma emit_app: "emit name log = Some (Normal, log @ [name])"
  by (simp add: emit_def)

lemma acquire_app: "acquire p log = Some (p, log @ [''request '' @ p])"
  by (simp add: acquire_def)

lemma release_app: "release (p, log) = Some (0, (p, log @ [''release '' @ p]))"
  by (simp add: release_def)

lemma if_stmt_app:
  "if_stmt c body s =
     (case c s of None \<Rightarrow> None
      | Some (v, s') \<Rightarrow> if v \<noteq> 0 then body s' else Some (Normal, s'))"
  by (simp add: if_stmt_def)

lemma break_app: "SE350_SCOPE_BREAK s = Some (Break, s)"
  by (simp add: SE350_SCOPE_BREAK_def break_stmt_def)

lemma continue_app: "continue_stmt s = Some (Continue, s)"
  by (simp add: continue_stmt_def)

lemma return_app: "return_stmt s = Some (Return, s)"
  by (simp add: return_stmt_def)

section \<open>Blocks and loops\<close>

lemma block_stmt_append:
  "block_stmt (cs @ ds) s =
     (case block_stmt cs s of None \<Rightarrow> None
      | Some (st, s') \<Rightarrow> if st = Normal then block_stmt ds s' else Some (st, s'))"
  by (induction cs arbitrary: s) (auto split: option.splits)

lemma for_loop_break:
  "c s = Some (v, s1) \<Longrightarrow> v \<noteq> 0 \<Longrightarrow> body s1 = Some (Break, s2) \<Longrightarrow>
   for_loop c stp body s = Some (Normal, s2)"
  by (subst for_loop.simps) simp

section \<open>The loops of the macros, one pass at a time\<close>

text \<open>Once the flag is set, each of the loops is left at its next test.\<close>

lemma flag_loop_done:
  "has_run f \<Longrightarrow> for_loop (not_expr flag_read) stp b (f, s) = Some (Normal, (f, s))"
  by (subst for_loop.simps) (simp add: expr_app)

lemma scope_loop_done:
  "has_run f \<Longrightarrow> for_loop (cond_expr flag_read (lit 0) c) stp b (f, s) = Some (Normal, (f, s))"
  by (subst for_loop.simps) (simp add: expr_app)

lemma using_loop_done:
  "has_run f \<Longrightarrow>
   for_loop (not_expr (outer_e flag_read)) stp b (v, f, s) = Some (Normal, (v, f, s))"
  by (subst for_loop.simps) (simp add: expr_app)

text \<open>
  The innermost loop runs the body once. After a fall-through or a \<^verbatim>\<open>continue\<close> its
  step sets the flag; after a \<^verbatim>\<open>break\<close> the flag is still clear.
\<close>

lemma scope_inner_loop:
  "\<not> has_run f \<Longrightarrow>
   for_loop (not_expr flag_read) (flag_assign (lit 1)) (outer_s body) (f, s) =
     (case body s of None \<Rightarrow> None
      | Some (st, s2) \<Rightarrow>
          (case st of
             Break \<Rightarrow> Some (Normal, (f, s2))
           | Return \<Rightarrow> Some (Return, (f, s2))
           | _ \<Rightarrow> Some (Normal, (\<lparr>has_run = True, raised = raised f + 1\<rparr>, s2))))"
  apply (subst for_loop.simps)
  apply (auto simp add: expr_app flag_loop_done split: option.splits status.splits)
  done

lemma using_inner_loop:
  "\<not> has_run f \<Longrightarrow>
   for_loop (not_expr (outer_e flag_read)) (outer_e (flag_assign (lit 1))) (past_s body)
     (v, f, s) =
     (case body (v, s) of None \<Rightarrow> None
      | Some (st, (v', s')) \<Rightarrow>
          (case st of
             Break \<Rightarrow> Some (Normal, (v', f, s'))
           | Return \<Rightarrow> Some (Return, (v', f, s'))
           | _ \<Rightarrow> Some (Normal, (v', \<lparr>has_run = True, raised = raised f + 1\<rparr>, s'))))"
  apply (subst for_loop.simps)
  apply (auto simp add: expr_app using_loop_done split: option.splits status.splits)
  done

lemma using_middle_loop:
  "\<not> has_run f \<Longrightarrow>
   for_loop (not_expr (outer_e flag_read))
     (comma (void_cast (past_e after_expr)) (outer_e (flag_assign (lit 1))))
     (for_loop (not_expr (outer_e flag_read)) (outer_e (flag_assign (lit 1))) (past_s body))
     (v, f, s) =
     (case body (v, s) of None \<Rightarrow> None
      | Some (st, (v', s')) \<Rightarrow>
          if st = Return then Some (Return, (v', f, s'))
          else (case after_expr (v', s') of None \<Rightarrow> None
                | Some (y, (v'', s'')) \<Rightarrow>
                    Some (Normal, (v'', \<lparr>has_run = True, raised = raised f + 1\<rparr>, s''))))"
  apply (subst for_loop.simps)
  apply (auto simp add: expr_app using_loop_done using_inner_loop
      split: option.splits status.splits)
  done

lemma using_middle_decl:
  "\<not> has_run f \<Longrightarrow>
   for_decl (outer_e decl) (not_expr (outer_e flag_read))
     (comma (void_cast (past_e after_expr)) (outer_e (flag_assign (lit 1))))
     (for_loop (not_expr (outer_e flag_read)) (outer_e (flag_assign (lit 1))) (past_s body))
     (f, s) =
     (case decl s of None \<Rightarrow> None
      | Some (v, s1) \<Rightarrow>
          (case body (v, s1) of None \<Rightarrow> None
           | Some (st, (v', s')) \<Rightarrow>
               if st = Return then Some (Return, (f, s'))
               else (case after_expr (v', s') of None \<Rightarrow> None
                     | Some (y, (v'', s'')) \<Rightarrow>
                         Some (Normal, (\<lparr>has_run = True, raised = raised f + 1\<rparr>, s'')))))"
  unfolding for_decl_def for_live_def
  by (auto simp add: outer_e_app using_middle_loop split: option.splits)

section \<open>What one execution of a macro does\<close>

lemma SE350_SCOPE_live_eq:
  "SE350_SCOPE_live before_expr after_expr body s =
     (case before_expr s of None \<Rightarrow> None
      | Some (x, s1) \<Rightarrow>
          (case body s1 of None \<Rightarrow> None
           | Some (st, s2) \<Rightarrow>
               if st = Return then Some (Return, (\<lparr>has_run = False, raised = 0\<rparr>, s2))
               else (case after_expr s2 of None \<Rightarrow> None
                     | Some (y, s3) \<Rightarrow> Some (Normal, (\<lparr>has_run = True, raised = 1\<rparr>, s3)))))"
  unfolding SE350_SCOPE_live_def for_live_def
  apply (simp add: flag_decl_app lit_app)
  apply (subst for_loop.simps [of "cond_expr flag_read (lit 0) c" for c])
  apply (auto simp add: scope_inner_loop scope_loop_done expr_app
      split: option.splits status.splits)
  done

lemma SE350_USING_live_eq:
  "SE350_USING_live decl after_expr body s =
     (case decl s of None \<Rightarrow> None
      | Some (v, s1) \<Rightarrow>
          (case body (v, s1) of None \<Rightarrow> None
           | Some (st, (v2, s2)) \<Rightarrow>
               if st = Return then Some (Return, (\<lparr>has_run = False, raised = 0\<rparr>, s2))
               else (case after_expr (v2, s2) of None \<Rightarrow> None
                     | Some (y, (v3, s3)) \<Rightarrow>
                         Some (Normal, (\<lparr>has_run = True, raised = 1\<rparr>, s3)))))"
  unfolding SE350_USING_live_def for_live_def
  apply (simp add: flag_decl_app lit_app)
  apply (subst for_loop.simps [of "not_expr flag_read" no_expr])
  apply (auto simp add: not_expr_app flag_read_app no_expr_app using_middle_decl flag_loop_done
      split: option.splits status.splits)
  done

lemma SE350_SCOPE_leaves:
  "SE350_SCOPE before_expr after_expr body s =
     (case SE350_SCOPE_live before_expr after_expr body s of None \<Rightarrow> None
      | Some (st, (f, s')) \<Rightarrow> Some (st, s'))"
  by (simp add: SE350_SCOPE_def SE350_SCOPE_live_def for_decl_def)

lemma SE350_USING_leaves:
  "SE350_USING decl after_expr body s =
     (case SE350_USING_live decl after_expr body s of None \<Rightarrow> None
      | Some (st, (f, s')) \<Rightarrow> Some (st, s'))"
  by (simp add: SE350_USING_def SE350_USING_live_def for_decl_def [of "flag_decl (lit 0)"])

lemma SE350_SCOPE_eq:
  "SE350_SCOPE before_expr after_expr body s =
     (case before_expr s of None \<Rightarrow> None
      | Some (x, s1) \<Rightarrow>
          (case body s1 of None \<Rightarrow> None
           | Some (st, s2) \<Rightarrow>
               if st = Return then Some (Return, s2)
               else (case after_expr s2 of None \<Rightarrow> None
                     | Some (y, s3) \<Rightarrow> Some (Normal, s3))))"
  by (simp add: SE350_SCOPE_leaves SE350_SCOPE_live_eq split: option.splits)

lemma SE350_SCOPE_EXIT_eq:
  "SE350_SCOPE_EXIT after_expr body s =
     (case body s of None \<Rightarrow> None
      | Some (st, s2) \<Rightarrow>
          if st = Return then Some (Return, s2)
          else (case after_expr s2 of None \<Rightarrow> None
                | Some (y, s3) \<Rightarrow> Some (Normal, s3)))"
  by (simp add: SE350_SCOPE_EXIT_def SE350_SCOPE_eq lit_app)

lemma SE350_USING_eq:
  "SE350_USING decl after_expr body s =
     (case decl s of None \<Rightarrow> None
      | Some (v, s1) \<Rightarrow>
          (case body (v, s1) of None \<Rightarrow> None
           | Some (st, (v2, s2)) \<Rightarrow>
               if st = Return then Some (Return, s2)
               else (case after_expr (v2, s2) of None \<Rightarrow> None
                     | Some (y, (v3, s3)) \<Rightarrow> Some (Normal, s3))))"
  by (simp add: SE350_USING_leaves SE350_USING_live_eq split: option.splits)

section \<open>The guarded block falls through\<close>

text \<open>
  C1. When \<open>before_expr\<close> comes back, the guarded block then falls through, and
  \<open>after_expr\<close> comes back, \<open>SE350_SCOPE(before_expr, after_expr) body\<close> falls through
  in the state reached by \<open>before_expr\<close>, then the block, then \<open>after_expr\<close>: each of the
  three is run exactly once, \<open>before_expr\<close> ahead of the block and \<open>after_expr\<close> behind it.
  The state is arbitrary, so this holds in particular when each action writes to a log.
\<close>

theorem SE350_SCOPE_fall_through:
  "before_expr s = Some (x, s1) \<Longrightarrow> body s1 = Some (Normal, s2) \<Longrightarrow>
   after_expr s2 = Some (y, s3) \<Longrightarrow>
   SE350_SCOPE before_expr after_expr body s = Some (Normal, s3)"
  by (simp add: SE350_SCOPE_eq)

theorem SE350_SCOPE_fall_through_witness:
  "call ''before'' [] = Some (0, [''before'']) \<and>
   block_stmt [emit ''first'', emit ''last''] [''before''] =
     Some (Normal, [''before'', ''first'', ''last'']) \<and>
   call ''after'' [''before'', ''first'', ''last''] =
     Some (0, [''before'', ''first'', ''last'', ''after'']) \<and>
   SE350_SCOPE (call ''before'') (call ''after'') (block_stmt [emit ''first'', emit ''last'']) [] =
     Some (Normal, [''before'', ''first'', ''last'', ''after''])"
proof -
  have b: "call ''before'' [] = Some (0, [''before''])"
    by (simp add: call_app)
  have k: "block_stmt [emit ''first'', emit ''last''] [''before''] =
      Some (Normal, [''before'', ''first'', ''last''])"
    by (simp add: emit_app)
  have a: "call ''after'' [''before'', ''first'', ''last''] =
      Some (0, [''before'', ''first'', ''last'', ''after''])"
    by (simp add: call_app)
  from SE350_SCOPE_fall_through
    [where before_expr = "call ''before''" and after_expr = "call ''after''"
       and body = "block_stmt [emit ''first'', emit ''last'']", OF b k a] b k a
  show ?thesis
    by simp
qed

section \<open>SE350_SCOPE_BREAK\<close>

text \<open>
  C2, as stated, fails. \<open>SE350_SCOPE_BREAK\<close> is C's \<^verbatim>\<open>break\<close>, which leaves the innermost
  enclosing loop. Inside a loop nested in the guarded block it leaves that loop only, and
  the statements of the guarded block behind the loop are executed: here \<open>later\<close> is
  logged although \<open>SE350_SCOPE_BREAK\<close> was executed ahead of it in the guarded block.
\<close>

theorem SE350_SCOPE_BREAK_nested_loop_counterexample:
  "SE350_SCOPE (call ''before'') (call ''after'')
     (block_stmt
        [for_loop (lit 1) no_expr (block_stmt [emit ''in loop'', SE350_SCOPE_BREAK]),
         emit ''later'']) [] =
   Some (Normal, [''before'', ''in loop'', ''later'', ''after''])"
proof -
  have "for_loop (lit 1) no_expr (block_stmt [emit ''in loop'', SE350_SCOPE_BREAK])
      [''before''] = Some (Normal, [''before'', ''in loop''])"
    by (rule for_loop_break [where v = 1 and ?s1.0 = "[''before'']"])
      (simp_all add: lit_app emit_app break_app)
  then show ?thesis
    by (simp add: SE350_SCOPE_eq call_app emit_app)
qed

text \<open>
  C2, amended. \<open>SE350_SCOPE_BREAK\<close> ends the statement it is in by \<^verbatim>\<open>break\<close>. When the
  break reaches the guarded block, that is, when the statement \<open>c\<close> of the block in which
  it is executed (\<open>SE350_SCOPE_BREAK\<close> itself, or an \<^verbatim>\<open>if\<close> or compound statement around
  it, but not a loop) ends by \<^verbatim>\<open>break\<close>, and the statements \<open>pre\<close> ahead of \<open>c\<close> have
  fallen through, then none of the statements \<open>post\<close> behind \<open>c\<close> is executed and the
  after-action runs once, in the state in which the break was executed. The result is
  the one of any block that falls through in that state. This holds for each of the
  three macros.
\<close>

theorem SE350_SCOPE_BREAK_reaches_block:
  "SE350_SCOPE_BREAK w = Some (Break, w) \<and>
   (before_expr s = Some (x, s1) \<longrightarrow> block_stmt pre s1 = Some (Normal, s2) \<longrightarrow>
    c s2 = Some (Break, s3) \<longrightarrow> after_expr s3 = Some (y, s4) \<longrightarrow>
      SE350_SCOPE before_expr after_expr (block_stmt (pre @ c # post)) s = Some (Normal, s4) \<and>
      (body s1 = Some (Normal, s3) \<longrightarrow>
         SE350_SCOPE before_expr after_expr body s = Some (Normal, s4))) \<and>
   (block_stmt pre_e t = Some (Normal, t2) \<longrightarrow> c_e t2 = Some (Break, t3) \<longrightarrow>
    after_e t3 = Some (y_e, t4) \<longrightarrow>
      SE350_SCOPE_EXIT after_e (block_stmt (pre_e @ c_e # post_e)) t = Some (Normal, t4) \<and>
      (body_e t = Some (Normal, t3) \<longrightarrow>
         SE350_SCOPE_EXIT after_e body_e t = Some (Normal, t4))) \<and>
   (decl u = Some (v, u1) \<longrightarrow> block_stmt pre_u (v, u1) = Some (Normal, (v2, u2)) \<longrightarrow>
    c_u (v2, u2) = Some (Break, (v3, u3)) \<longrightarrow> after_u (v3, u3) = Some (y_u, (v4, u4)) \<longrightarrow>
      SE350_USING decl after_u (block_stmt (pre_u @ c_u # post_u)) u = Some (Normal, u4) \<and>
      (body_u (v, u1) = Some (Normal, (v3, u3)) \<longrightarrow>
         SE350_USING decl after_u body_u u = Some (Normal, u4)))"
  by (simp add: SE350_SCOPE_eq SE350_SCOPE_EXIT_eq SE350_USING_eq block_stmt_append break_app)

theorem SE350_SCOPE_BREAK_reaches_block_witness:
  "(call ''before'' [] = Some (0, [''before'']) \<and>
    block_stmt [emit ''first''] [''before''] = Some (Normal, [''before'', ''first'']) \<and>
    if_stmt (lit 1) (block_stmt [emit ''second'', SE350_SCOPE_BREAK, emit ''skipped''])
      [''before'', ''first''] = Some (Break, [''before'', ''first'', ''second'']) \<and>
    call ''after'' [''before'', ''first'', ''second''] =
      Some (0, [''before'', ''first'', ''second'', ''after'']) \<and>
    SE350_SCOPE (call ''before'') (call ''after'')
      (block_stmt ([emit ''first''] @
         if_stmt (lit 1) (block_stmt [emit ''second'', SE350_SCOPE_BREAK, emit ''skipped''])
         # [emit ''skipped too''])) [] =
        Some (Normal, [''before'', ''first'', ''second'', ''after'']) \<and>
    block_stmt [emit ''first'', emit ''second''] [''before''] =
      Some (Normal, [''before'', ''first'', ''second'']) \<and>
    SE350_SCOPE (call ''before'') (call ''after'')
      (block_stmt [emit ''first'', emit ''second'']) [] =
        Some (Normal, [''before'', ''first'', ''second'', ''after''])) \<and>
   (block_stmt [emit ''first''] [] = Some (Normal, [''first'']) \<and>
    SE350_SCOPE_BREAK [''first''] = Some (Break, [''first'']) \<and>
    call ''after'' [''first''] = Some (0, [''first'', ''after'']) \<and>
    SE350_SCOPE_EXIT (call ''after'')
      (block_stmt ([emit ''first''] @ SE350_SCOPE_BREAK # [emit ''skipped''])) [] =
        Some (Normal, [''first'', ''after''])) \<and>
   (acquire ''p'' [] = Some (''p'', [''request p'']) \<and>
    block_stmt [outer_s (emit ''first'')] (''p'', [''request p'']) =
      Some (Normal, (''p'', [''request p'', ''first''])) \<and>
    SE350_SCOPE_BREAK (''p'', [''request p'', ''first'']) =
      Some (Break, (''p'', [''request p'', ''first''])) \<and>
    release (''p'', [''request p'', ''first'']) =
      Some (0, (''p'', [''request p'', ''first'', ''release p''])) \<and>
    SE350_USING (acquire ''p'') release
      (block_stmt ([outer_s (emit ''first'')] @ SE350_SCOPE_BREAK # [outer_s (emit ''skipped'')]))
      [] = Some (Normal, [''request p'', ''first'', ''release p'']))"
proof -
  note T = SE350_SCOPE_BREAK_reaches_block
    [where before_expr = "call ''before''" and s = "[]" and x = 0 and ?s1.0 = "[''before'']"
       and pre = "[emit ''first'']" and ?s2.0 = "[''before'', ''first'']"
       and c = "if_stmt (lit 1) (block_stmt [emit ''second'', SE350_SCOPE_BREAK, emit ''skipped''])"
       and ?s3.0 = "[''before'', ''first'', ''second'']"
       and after_expr = "call ''after''" and y = 0
       and ?s4.0 = "[''before'', ''first'', ''second'', ''after'']"
       and post = "[emit ''skipped too'']"
       and body = "block_stmt [emit ''first'', emit ''second'']"
       and pre_e = "[emit ''first'']" and t = "[]" and ?t2.0 = "[''first'']"
       and c_e = SE350_SCOPE_BREAK and ?t3.0 = "[''first'']"
       and after_e = "call ''after''" and y_e = 0 and ?t4.0 = "[''first'', ''after'']"
       and post_e = "[emit ''skipped'']"
       and decl = "acquire ''p''" and u = "[]" and v = "''p''" and ?u1.0 = "[''request p'']"
       and pre_u = "[outer_s (emit ''first'')]" and ?v2.0 = "''p''"
       and ?u2.0 = "[''request p'', ''first'']" and c_u = SE350_SCOPE_BREAK
       and ?v3.0 = "''p''" and ?u3.0 = "[''request p'', ''first'']"
       and after_u = release and y_u = 0
       and ?v4.0 = "''p''" and ?u4.0 = "[''request p'', ''first'', ''release p'']"
       and post_u = "[outer_s (emit ''skipped'')]"]
  have b: "call ''before'' [] = Some (0, [''before''])"
    by (simp add: call_app)
  have k: "block_stmt [emit ''first''] [''before''] = Some (Normal, [''before'', ''first''])"
    by (simp add: emit_app)
  have c: "if_stmt (lit 1) (block_stmt [emit ''second'', SE350_SCOPE_BREAK, emit ''skipped''])
      [''before'', ''first''] = Some (Break, [''before'', ''first'', ''second''])"
    by (simp add: if_stmt_app lit_app emit_app break_app)
  have a: "call ''after'' [''before'', ''first'', ''second''] =
      Some (0, [''before'', ''first'', ''second'', ''after''])"
    by (simp add: call_app)
  have f: "block_stmt [emit ''first'', emit ''second''] [''before''] =
      Some (Normal, [''before'', ''first'', ''second''])"
    by (simp add: emit_app)
  have ke: "block_stmt [emit ''first''] [] = Some (Normal, [''first''])"
    by (simp add: emit_app)
  have ce: "SE350_SCOPE_BREAK [''first''] = Some (Break, [''first''])"
    by (simp add: break_app)
  have ae: "call ''after'' [''first''] = Some (0, [''first'', ''after''])"
    by (simp add: call_app)
  have d: "acquire ''p'' [] = Some (''p'', [''request p''])"
    by (simp add: acquire_app)
  have ku: "block_stmt [outer_s (emit ''first'')] (''p'', [''request p'']) =
      Some (Normal, (''p'', [''request p'', ''first'']))"
    by (simp add: outer_s_app emit_app)
  have cu: "SE350_SCOPE_BREAK (''p'', [''request p'', ''first'']) =
      Some (Break, (''p'', [''request p'', ''first'']))"
    by (simp add: break_app)
  have au: "release (''p'', [''request p'', ''first'']) =
      Some (0, (''p'', [''request p'', ''first'', ''release p'']))"
    by (simp add: release_app)
  note T1 = T [THEN conjunct2, THEN conjunct1,
      THEN mp, OF b, THEN mp, OF k, THEN mp, OF c, THEN mp, OF a]
  have c1: "SE350_SCOPE (call ''before'') (call ''after'')
      (block_stmt ([emit ''first''] @
         if_stmt (lit 1) (block_stmt [emit ''second'', SE350_SCOPE_BREAK, emit ''skipped''])
         # [emit ''skipped too''])) [] =
        Some (Normal, [''before'', ''first'', ''second'', ''after''])"
    by (rule T1 [THEN conjunct1])
  have c1': "SE350_SCOPE (call ''before'') (call ''after'')
      (block_stmt [emit ''first'', emit ''second'']) [] =
        Some (Normal, [''before'', ''first'', ''second'', ''after''])"
    by (rule T1 [THEN conjunct2, THEN mp, OF f])
  have c2: "SE350_SCOPE_EXIT (call ''after'')
      (block_stmt ([emit ''first''] @ SE350_SCOPE_BREAK # [emit ''skipped''])) [] =
        Some (Normal, [''first'', ''after''])"
    by (rule T [THEN conjunct2, THEN conjunct2, THEN conjunct1,
          THEN mp, OF ke, THEN mp, OF ce, THEN mp, OF ae, THEN conjunct1])
  have c3: "SE350_USING (acquire ''p'') release
      (block_stmt ([outer_s (emit ''first'')] @ SE350_SCOPE_BREAK # [outer_s (emit ''skipped'')]))
      [] = Some (Normal, [''request p'', ''first'', ''release p''])"
    by (rule T [THEN conjunct2, THEN conjunct2, THEN conjunct2,
          THEN mp, OF d, THEN mp, OF ku, THEN mp, OF cu, THEN mp, OF au, THEN conjunct1])
  show ?thesis
    by (intro conjI) (rule b k c a f ke ce ae d ku cu au c1 c1' c2 c3)+
qed

section \<open>Leaving the guarded block by return\<close>

text \<open>
  C3. When the guarded block of \<open>SE350_SCOPE\<close>, \<open>SE350_SCOPE_EXIT\<close> or \<open>SE350_USING\<close> is
  left by \<^verbatim>\<open>return\<close>, the whole statement is left by \<^verbatim>\<open>return\<close> in the state the block
  had reached: the before-action (or the declaration) and the block up to the
  \<^verbatim>\<open>return\<close> have run, and the after-action, whatever it is, has not been evaluated.
\<close>

theorem SE350_return_skips_after:
  "(before_expr s = Some (x, s1) \<longrightarrow> body s1 = Some (Return, s2) \<longrightarrow>
      SE350_SCOPE before_expr after_expr body s = Some (Return, s2)) \<and>
   (body_e t = Some (Return, t2) \<longrightarrow>
      SE350_SCOPE_EXIT after_e body_e t = Some (Return, t2)) \<and>
   (decl u = Some (v, u1) \<longrightarrow> body_u (v, u1) = Some (Return, (v2, u2)) \<longrightarrow>
      SE350_USING decl after_u body_u u = Some (Return, u2))"
  by (simp add: SE350_SCOPE_eq SE350_SCOPE_EXIT_eq SE350_USING_eq)

theorem SE350_return_skips_after_witness:
  "(call ''before'' [] = Some (0, [''before'']) \<and>
    block_stmt [emit ''first'', return_stmt, emit ''skipped''] [''before''] =
      Some (Return, [''before'', ''first'']) \<and>
    SE350_SCOPE (call ''before'') (call ''after'')
      (block_stmt [emit ''first'', return_stmt, emit ''skipped'']) [] =
        Some (Return, [''before'', ''first''])) \<and>
   (block_stmt [emit ''first'', return_stmt, emit ''skipped''] [] = Some (Return, [''first'']) \<and>
    SE350_SCOPE_EXIT (call ''after'')
      (block_stmt [emit ''first'', return_stmt, emit ''skipped'']) [] =
        Some (Return, [''first''])) \<and>
   (acquire ''p'' [] = Some (''p'', [''request p'']) \<and>
    block_stmt [outer_s (emit ''first''), return_stmt] (''p'', [''request p'']) =
      Some (Return, (''p'', [''request p'', ''first''])) \<and>
    SE350_USING (acquire ''p'') release
      (block_stmt [outer_s (emit ''first''), return_stmt]) [] =
        Some (Return, [''request p'', ''first'']))"
proof -
  have b: "call ''before'' [] = Some (0, [''before''])"
    by (simp add: call_app)
  have k: "block_stmt [emit ''first'', return_stmt, emit ''skipped''] [''before''] =
      Some (Return, [''before'', ''first''])"
    by (simp add: emit_app return_app)
  have ke: "block_stmt [emit ''first'', return_stmt, emit ''skipped''] [] =
      Some (Return, [''first''])"
    by (simp add: emit_app return_app)
  have d: "acquire ''p'' [] = Some (''p'', [''request p''])"
    by (simp add: acquire_app)
  have ku: "block_stmt [outer_s (emit ''first''), return_stmt] (''p'', [''request p'']) =
      Some (Return, (''p'', [''request p'', ''first'']))"
    by (simp add: outer_s_app emit_app return_app)
  from SE350_return_skips_after
    [where before_expr = "call ''before''" and s = "[]" and x = 0 and ?s1.0 = "[''before'']"
       and body = "block_stmt [emit ''first'', return_stmt, emit ''skipped'']"
       and ?s2.0 = "[''before'', ''first'']" and after_expr = "call ''after''"
       and body_e = "block_stmt [emit ''first'', return_stmt, emit ''skipped'']" and t = "[]"
       and ?t2.0 = "[''first'']" and after_e = "call ''after''"
       and decl = "acquire ''p''" and u = "[]" and v = "''p''" and ?u1.0 = "[''request p'']"
       and body_u = "block_stmt [outer_s (emit ''first''), return_stmt]" and ?v2.0 = "''p''"
       and ?u2.0 = "[''request p'', ''first'']" and after_u = release]
    b k ke d ku
  show ?thesis
    by simp
qed

section \<open>One activation, and repeated entries\<close>

text \<open>
  An enclosing counting loop whose body always falls through runs the body once per
  pass, each pass starting from the state the previous one left.
\<close>

lemma counted_passes:
  assumes G: "\<And>s. G s = Some (Normal, g s)"
  shows "nat (n - i) = k \<Longrightarrow> i \<le> n \<Longrightarrow>
    for_loop (\<lambda>(i, s). Some (if i < n then 1 else 0, (i, s)))
      (\<lambda>(i, s). Some (i, (i + 1, s))) (outer_s G) (i, s) =
    Some (Normal, (n, (g ^^ k) s))"
proof (induction k arbitrary: i s)
  case 0
  then have "i = n" by simp
  then show ?case
    by (subst for_loop.simps) simp
next
  case (Suc k)
  then have less: "i < n" and next_pass: "nat (n - (i + 1)) = k" "i + 1 \<le> n"
    by simp_all
  show ?case
    apply (subst for_loop.simps)
    apply (simp add: less outer_s_app G Suc.IH [OF next_pass] funpow_swap1)
    done
qed

lemma counted_loop_iter:
  assumes G: "\<And>s. G s = Some (Normal, g s)"
  shows "counted_loop (int n) G s = Some (Normal, (g ^^ n) s)"
  unfolding counted_loop_def for_decl_def for_live_def
  by (simp add: lit_app counted_passes [OF G, where k = n])

text \<open>
  C4, as stated, fails for an activation whose guarded block returns from the function:
  the flag is declared, \<open>before_expr\<close> runs, and the statement is left with the flag
  still clear, never set, the after-action skipped.
\<close>

theorem guard_activation_counterexample:
  "SE350_SCOPE_live (call ''before'') (call ''after'') return_stmt [] =
     Some (Return, (\<lparr>has_run = False, raised = 0\<rparr>, [''before'']))"
  by (simp add: SE350_SCOPE_live_eq call_app return_app)

text \<open>
  C4, amended. In every activation of \<open>SE350_SCOPE\<close> or \<open>SE350_USING\<close> whose guarded
  block ends by falling through, or by a \<^verbatim>\<open>break\<close> or \<^verbatim>\<open>continue\<close> that reaches the guard,
  the flag is clear at entry, set when the statement is left, was changed from clear to
  set exactly once, and the after-action has run once. Each entry declares the flag
  anew: in an enclosing loop of \<open>n\<close> passes, with actions that always come back and a
  block that always ends in one of these three ways, the state after the loop is that of
  \<open>n\<close> rounds of before-action (or declaration), block, after-action, in this order.
  Blocks left in another way (\<^verbatim>\<open>return\<close>, or a jump out of the loops, which is outside
  the fragment embedded here) are not covered.
\<close>

theorem guard_activation_once:
  "(before_expr s = Some (x, s1) \<longrightarrow> body s1 = Some (st, s2) \<longrightarrow> st \<in> {Normal, Break, Continue} \<longrightarrow>
    after_expr s2 = Some (y, s3) \<longrightarrow>
      SE350_SCOPE_live before_expr after_expr body s =
        Some (Normal, (\<lparr>has_run = True, raised = 1\<rparr>, s3))) \<and>
   (decl u = Some (v, u1) \<longrightarrow> body_u (v, u1) = Some (st_u, (v2, u2)) \<longrightarrow> st_u \<in> {Normal, Break, Continue} \<longrightarrow>
    after_u (v2, u2) = Some (y_u, (v3, u3)) \<longrightarrow>
      SE350_USING_live decl after_u body_u u =
        Some (Normal, (\<lparr>has_run = True, raised = 1\<rparr>, u3))) \<and>
   ((\<forall>s. \<exists>x. before_n s = Some (x, fb s)) \<longrightarrow>
    (\<forall>s. \<exists>st. st \<in> {Normal, Break, Continue} \<and> body_n s = Some (st, fk s)) \<longrightarrow>
    (\<forall>s. \<exists>y. after_n s = Some (y, fa s)) \<longrightarrow>
      counted_loop (int n) (SE350_SCOPE before_n after_n body_n) w =
        Some (Normal, ((\<lambda>s. fa (fk (fb s))) ^^ n) w)) \<and>
   ((\<forall>s. decl_n s = Some (fd s)) \<longrightarrow>
    (\<forall>p. \<exists>st. st \<in> {Normal, Break, Continue} \<and> body_m p = Some (st, fm p)) \<longrightarrow>
    (\<forall>p. \<exists>y. after_m p = Some (y, fr p)) \<longrightarrow>
      counted_loop (int m) (SE350_USING decl_n after_m body_m) w' =
        Some (Normal, ((\<lambda>s. snd (fr (fm (fd s)))) ^^ m) w'))"
proof (intro conjI impI)
  assume "before_expr s = Some (x, s1)" "body s1 = Some (st, s2)" "st \<in> {Normal, Break, Continue}"
    "after_expr s2 = Some (y, s3)"
  then show "SE350_SCOPE_live before_expr after_expr body s =
      Some (Normal, (\<lparr>has_run = True, raised = 1\<rparr>, s3))"
    by (auto simp add: SE350_SCOPE_live_eq)
next
  assume "decl u = Some (v, u1)" "body_u (v, u1) = Some (st_u, (v2, u2))" "st_u \<in> {Normal, Break, Continue}"
    "after_u (v2, u2) = Some (y_u, (v3, u3))"
  then show "SE350_USING_live decl after_u body_u u =
      Some (Normal, (\<lparr>has_run = True, raised = 1\<rparr>, u3))"
    by (auto simp add: SE350_USING_live_eq)
next
  assume b: "\<forall>s. \<exists>x. before_n s = Some (x, fb s)"
    and k: "\<forall>s. \<exists>st. st \<in> {Normal, Break, Continue} \<and> body_n s = Some (st, fk s)"
    and a: "\<forall>s. \<exists>y. after_n s = Some (y, fa s)"
  have "SE350_SCOPE before_n after_n body_n s = Some (Normal, fa (fk (fb s)))" for s
  proof -
    obtain x where "before_n s = Some (x, fb s)"
      using b by blast
    moreover obtain st where "st \<in> {Normal, Break, Continue}" "body_n (fb s) = Some (st, fk (fb s))"
      using k by blast
    moreover obtain y where "after_n (fk (fb s)) = Some (y, fa (fk (fb s)))"
      using a by blast
    ultimately show ?thesis
      by (auto simp add: SE350_SCOPE_eq)
  qed
  then show "counted_loop (int n) (SE350_SCOPE before_n after_n body_n) w =
      Some (Normal, ((\<lambda>s. fa (fk (fb s))) ^^ n) w)"
    by (rule counted_loop_iter)
next
  assume d: "\<forall>s. decl_n s = Some (fd s)"
    and k: "\<forall>p. \<exists>st. st \<in> {Normal, Break, Continue} \<and> body_m p = Some (st, fm p)"
    and a: "\<forall>p. \<exists>y. after_m p = Some (y, fr p)"
  have "SE350_USING decl_n after_m body_m s = Some (Normal, snd (fr (fm (fd s))))" for s
  proof -
    have "decl_n s = Some (fd s)"
      using d by blast
    moreover obtain st where "st \<in> {Normal, Break, Continue}" "body_m (fd s) = Some (st, fm (fd s))"
      using k by blast
    moreover obtain y where "after_m (fm (fd s)) = Some (y, fr (fm (fd s)))"
      using a by blast
    ultimately show ?thesis
      by (auto simp add: SE350_USING_eq split: prod.splits)
  qed
  then show "counted_loop (int m) (SE350_USING decl_n after_m body_m) w' =
      Some (Normal, ((\<lambda>s. snd (fr (fm (fd s)))) ^^ m) w')"
    by (rule counted_loop_iter)
qed

theorem guard_activation_once_witness:
  "(call ''before'' [] = Some (0, [''before'']) \<and>
    block_stmt [emit ''first'', SE350_SCOPE_BREAK] [''before''] =
      Some (Break, [''before'', ''first'']) \<and>
    Break \<in> {Normal, Break, Continue} \<and>
    call ''after'' [''before'', ''first''] = Some (0, [''before'', ''first'', ''after'']) \<and>
    SE350_SCOPE_live (call ''before'') (call ''after'')
      (block_stmt [emit ''first'', SE350_SCOPE_BREAK]) [] =
        Some (Normal, (\<lparr>has_run = True, raised = 1\<rparr>, [''before'', ''first'', ''after'']))) \<and>
   (acquire ''p'' [] = Some (''p'', [''request p'']) \<and>
    outer_s (emit ''use'') (''p'', [''request p'']) =
      Some (Normal, (''p'', [''request p'', ''use''])) \<and>
    Normal \<in> {Normal, Break, Continue} \<and>
    release (''p'', [''request p'', ''use'']) =
      Some (0, (''p'', [''request p'', ''use'', ''release p''])) \<and>
    SE350_USING_live (acquire ''p'') release (outer_s (emit ''use'')) [] =
      Some (Normal, (\<lparr>has_run = True, raised = 1\<rparr>, [''request p'', ''use'', ''release p'']))) \<and>
   ((\<forall>s. \<exists>x. call ''before'' s = Some (x, s @ [''before''])) \<and>
    (\<forall>s. \<exists>st. st \<in> {Normal, Break, Continue} \<and> emit ''block'' s = Some (st, s @ [''block''])) \<and>
    (\<forall>s. \<exists>y. call ''after'' s = Some (y, s @ [''after''])) \<and>
    counted_loop 2 (SE350_SCOPE (call ''before'') (call ''after'') (emit ''block'')) [] =
      Some (Normal, [''before'', ''block'', ''after'', ''before'', ''block'', ''after''])) \<and>
   ((\<forall>s. acquire ''p'' s = Some (''p'', s @ [''request p''])) \<and>
    (\<forall>p. \<exists>st. st \<in> {Normal, Break, Continue} \<and>
       outer_s (emit ''use'') p = Some (st, (fst p, snd p @ [''use'']))) \<and>
    (\<forall>p. \<exists>y. release p = Some (y, (fst p, snd p @ [''release '' @ fst p]))) \<and>
    counted_loop 2 (SE350_USING (acquire ''p'') release (outer_s (emit ''use''))) [] =
      Some (Normal, [''request p'', ''use'', ''release p'', ''request p'', ''use'', ''release p'']))"
proof -
  have b: "call ''before'' [] = Some (0, [''before''])"
    by (simp add: call_app)
  have k: "block_stmt [emit ''first'', SE350_SCOPE_BREAK] [''before''] =
      Some (Break, [''before'', ''first''])"
    by (simp add: emit_app break_app)
  have a: "call ''after'' [''before'', ''first''] = Some (0, [''before'', ''first'', ''after''])"
    by (simp add: call_app)
  have d: "acquire ''p'' [] = Some (''p'', [''request p''])"
    by (simp add: acquire_app)
  have ku: "outer_s (emit ''use'') (''p'', [''request p'']) =
      Some (Normal, (''p'', [''request p'', ''use'']))"
    by (simp add: outer_s_app emit_app)
  have au: "release (''p'', [''request p'', ''use'']) =
      Some (0, (''p'', [''request p'', ''use'', ''release p'']))"
    by (simp add: release_app)
  have bn: "\<forall>s. \<exists>x. call ''before'' s = Some (x, s @ [''before''])"
    by (simp add: call_app)
  have kn: "\<forall>s. \<exists>st. st \<in> {Normal, Break, Continue} \<and> emit ''block'' s = Some (st, s @ [''block''])"
    by (simp add: emit_app)
  have an: "\<forall>s. \<exists>y. call ''after'' s = Some (y, s @ [''after''])"
    by (simp add: call_app)
  have dm: "\<forall>s. acquire ''p'' s = Some (''p'', s @ [''request p''])"
    by (simp add: acquire_app)
  have km: "\<forall>p. \<exists>st. st \<in> {Normal, Break, Continue} \<and>
      outer_s (emit ''use'') p = Some (st, (fst p, snd p @ [''use'']))"
    by (simp add: outer_s_def emit_app split: prod.splits)
  have am: "\<forall>p. \<exists>y. release p = Some (y, (fst p, snd p @ [''release '' @ fst p]))"
    by (simp add: release_def split: prod.splits)
  note T = guard_activation_once
    [where before_expr = "call ''before''" and s = "[]" and x = 0 and ?s1.0 = "[''before'']"
       and body = "block_stmt [emit ''first'', SE350_SCOPE_BREAK]" and st = Break
       and ?s2.0 = "[''before'', ''first'']" and after_expr = "call ''after''" and y = 0
       and ?s3.0 = "[''before'', ''first'', ''after'']"
       and decl = "acquire ''p''" and u = "[]" and v = "''p''" and ?u1.0 = "[''request p'']"
       and body_u = "outer_s (emit ''use'')" and st_u = Normal and ?v2.0 = "''p''"
       and ?u2.0 = "[''request p'', ''use'']" and after_u = release and y_u = 0
       and ?v3.0 = "''p''" and ?u3.0 = "[''request p'', ''use'', ''release p'']"
       and before_n = "call ''before''" and fb = "\<lambda>s. s @ [''before'']"
       and body_n = "emit ''block''" and fk = "\<lambda>s. s @ [''block'']"
       and after_n = "call ''after''" and fa = "\<lambda>s. s @ [''after'']" and n = 2 and w = "[]"
       and decl_n = "acquire ''p''" and fd = "\<lambda>s. (''p'', s @ [''request p''])"
       and body_m = "outer_s (emit ''use'')" and fm = "\<lambda>p. (fst p, snd p @ [''use''])"
       and after_m = release and fr = "\<lambda>p. (fst p, snd p @ [''release '' @ fst p])"
       and m = 2 and w' = "[]"]
  have ne: "Break \<in> {Normal, Break, Continue}" and ne': "Normal \<in> {Normal, Break, Continue}"
    by simp_all
  have c1: "SE350_SCOPE_live (call ''before'') (call ''after'')
      (block_stmt [emit ''first'', SE350_SCOPE_BREAK]) [] =
        Some (Normal, (\<lparr>has_run = True, raised = 1\<rparr>, [''before'', ''first'', ''after'']))"
    by (rule T [THEN conjunct1, THEN mp, OF b, THEN mp, OF k, THEN mp, OF ne, THEN mp, OF a])
  have c2: "SE350_USING_live (acquire ''p'') release (outer_s (emit ''use'')) [] =
      Some (Normal, (\<lparr>has_run = True, raised = 1\<rparr>, [''request p'', ''use'', ''release p'']))"
    by (rule T [THEN conjunct2, THEN conjunct1,
          THEN mp, OF d, THEN mp, OF ku, THEN mp, OF ne', THEN mp, OF au])
  have c3: "counted_loop 2 (SE350_SCOPE (call ''before'') (call ''after'') (emit ''block'')) [] =
      Some (Normal, [''before'', ''block'', ''after'', ''before'', ''block'', ''after''])"
    using T [THEN conjunct2, THEN conjunct2, THEN conjunct1,
          THEN mp, OF bn, THEN mp, OF kn, THEN mp, OF an]
    by (simp add: numeral_2_eq_2)
  have c4: "counted_loop 2 (SE350_USING (acquire ''p'') release (outer_s (emit ''use''))) [] =
      Some (Normal, [''request p'', ''use'', ''release p'', ''request p'', ''use'', ''release p''])"
    using T [THEN conjunct2, THEN conjunct2, THEN conjunct2,
          THEN mp, OF dm, THEN mp, OF km, THEN mp, OF am]
    by (simp add: numeral_2_eq_2)
  show ?thesis
    by (intro conjI) (rule b k ne a c1 d ku ne' au c2 bn kn an c3 dm km am c4)+
qed

section \<open>Two stacked declarations\<close>

text \<open>
  C5. Two \<open>SE350_USING\<close> written one after the other in front of one block, as in
  \<^verbatim>\<open>main\<close> of \<^verbatim>\<open>usage.c\<close>: the outer declaration is evaluated first, then the inner one,
  which already sees the outer variable; the block runs with both variables in scope;
  when it falls through, the inner after-action runs first, on both variables, and the
  outer after-action runs last, when the inner variable is gone.
\<close>

theorem SE350_USING_stacked:
  "decl_a s = Some (a, s1) \<Longrightarrow> decl_b (a, s1) = Some (b, (a1, s2)) \<Longrightarrow>
   body (b, a1, s2) = Some (Normal, (b2, a2, s3)) \<Longrightarrow>
   after_b (b2, a2, s3) = Some (y, (b3, a3, s4)) \<Longrightarrow>
   after_a (a3, s4) = Some (z, (a4, s5)) \<Longrightarrow>
   SE350_USING decl_a after_a (SE350_USING decl_b after_b body) s = Some (Normal, s5)"
  by (simp add: SE350_USING_eq)

theorem SE350_USING_stacked_witness:
  "acquire ''p4'' [] = Some (''p4'', [''request p4'']) \<and>
   outer_e (acquire ''p5'') (''p4'', [''request p4'']) =
     Some (''p5'', (''p4'', [''request p4'', ''request p5''])) \<and>
   (\<lambda>(b, a, log). Some (Normal, (b, a, log @ [''use '' @ a @ '' and '' @ b])))
     (''p5'', ''p4'', [''request p4'', ''request p5'']) =
     Some (Normal, (''p5'', ''p4'', [''request p4'', ''request p5'', ''use p4 and p5''])) \<and>
   past_e release (''p5'', ''p4'', [''request p4'', ''request p5'', ''use p4 and p5'']) =
     Some (0, (''p5'', ''p4'',
       [''request p4'', ''request p5'', ''use p4 and p5'', ''release p5''])) \<and>
   release (''p4'', [''request p4'', ''request p5'', ''use p4 and p5'', ''release p5'']) =
     Some (0, (''p4'',
       [''request p4'', ''request p5'', ''use p4 and p5'', ''release p5'', ''release p4''])) \<and>
   SE350_USING (acquire ''p4'') release
     (SE350_USING (outer_e (acquire ''p5'')) (past_e release)
        (\<lambda>(b, a, log). Some (Normal, (b, a, log @ [''use '' @ a @ '' and '' @ b])))) [] =
     Some (Normal,
       [''request p4'', ''request p5'', ''use p4 and p5'', ''release p5'', ''release p4''])"
proof -
  have da: "acquire ''p4'' [] = Some (''p4'', [''request p4''])"
    by (simp add: acquire_app)
  have db: "outer_e (acquire ''p5'') (''p4'', [''request p4'']) =
      Some (''p5'', (''p4'', [''request p4'', ''request p5'']))"
    by (simp add: outer_e_app acquire_app)
  have k: "(\<lambda>(b, a, log). Some (Normal, (b, a, log @ [''use '' @ a @ '' and '' @ b])))
      (''p5'', ''p4'', [''request p4'', ''request p5'']) =
      Some (Normal, (''p5'', ''p4'', [''request p4'', ''request p5'', ''use p4 and p5'']))"
    by simp
  have ab: "past_e release (''p5'', ''p4'', [''request p4'', ''request p5'', ''use p4 and p5'']) =
      Some (0, (''p5'', ''p4'',
        [''request p4'', ''request p5'', ''use p4 and p5'', ''release p5'']))"
    by (simp add: past_e_app release_app)
  have aa: "release (''p4'', [''request p4'', ''request p5'', ''use p4 and p5'', ''release p5'']) =
      Some (0, (''p4'',
        [''request p4'', ''request p5'', ''use p4 and p5'', ''release p5'', ''release p4'']))"
    by (simp add: release_app)
  have c: "SE350_USING (acquire ''p4'') release
     (SE350_USING (outer_e (acquire ''p5'')) (past_e release)
        (\<lambda>(b, a, log). Some (Normal, (b, a, log @ [''use '' @ a @ '' and '' @ b])))) [] =
     Some (Normal,
       [''request p4'', ''request p5'', ''use p4 and p5'', ''release p5'', ''release p4''])"
    by (rule SE350_USING_stacked
        [where decl_a = "acquire ''p4''" and decl_b = "outer_e (acquire ''p5'')"
           and after_b = "past_e release" and after_a = release
           and body = "\<lambda>(b, a, log). Some (Normal, (b, a, log @ [''use '' @ a @ '' and '' @ b]))",
         OF da db k ab aa])
  show ?thesis
    by (intro conjI) (rule da db k ab aa c)+
qed

section \<open>A break does not reach enclosing statements\<close>

text \<open>
  C6. Whatever the guarded block is, a \<^verbatim>\<open>break\<close> or \<^verbatim>\<open>continue\<close> executed in it never
  leaves \<open>SE350_SCOPE\<close>, \<open>SE350_SCOPE_EXIT\<close> or \<open>SE350_USING\<close>: seen from outside, the
  statement falls through or returns. So an \<open>SE350_SCOPE_BREAK\<close> in the block of an inner
  guard ends that block only. In an enclosing guard the statements \<open>rest\<close> behind the
  inner guard are executed and the outer after-action runs once, after them; an
  enclosing loop of \<open>n\<close> passes makes all its passes.
\<close>

theorem SE350_break_stays_inside:
  "(SE350_SCOPE before_expr after_expr body s \<noteq> Some (Break, s') \<and>
    SE350_SCOPE before_expr after_expr body s \<noteq> Some (Continue, s')) \<and>
   (SE350_SCOPE_EXIT after_e body_e t \<noteq> Some (Break, t') \<and>
    SE350_SCOPE_EXIT after_e body_e t \<noteq> Some (Continue, t')) \<and>
   (SE350_USING decl after_u body_u u \<noteq> Some (Break, u') \<and>
    SE350_USING decl after_u body_u u \<noteq> Some (Continue, u')) \<and>
   (before_o g = Some (x_o, g1) \<longrightarrow> before_i g1 = Some (x_i, g2) \<longrightarrow>
    block_stmt pre g2 = Some (Normal, g3) \<longrightarrow> after_i g3 = Some (y_i, g4) \<longrightarrow>
    block_stmt rest g4 = Some (Normal, g5) \<longrightarrow> after_o g5 = Some (y_o, g6) \<longrightarrow>
      SE350_SCOPE before_o after_o
        (block_stmt
           (SE350_SCOPE before_i after_i (block_stmt (pre @ SE350_SCOPE_BREAK # post)) # rest))
        g = Some (Normal, g6)) \<and>
   ((\<forall>s. \<exists>x. before_n s = Some (x, fb s)) \<longrightarrow>
    (\<forall>s. block_stmt pre_n s = Some (Normal, fp s)) \<longrightarrow>
    (\<forall>s. \<exists>y. after_n s = Some (y, fa s)) \<longrightarrow>
      counted_loop (int n)
        (SE350_SCOPE before_n after_n (block_stmt (pre_n @ SE350_SCOPE_BREAK # post_n))) w =
        Some (Normal, ((\<lambda>s. fa (fp (fb s))) ^^ n) w))"
proof (intro conjI impI)
  show "SE350_SCOPE before_expr after_expr body s \<noteq> Some (Break, s')"
    and "SE350_SCOPE before_expr after_expr body s \<noteq> Some (Continue, s')"
    by (simp_all add: SE350_SCOPE_eq split: option.splits)
  show "SE350_SCOPE_EXIT after_e body_e t \<noteq> Some (Break, t')"
    and "SE350_SCOPE_EXIT after_e body_e t \<noteq> Some (Continue, t')"
    by (simp_all add: SE350_SCOPE_EXIT_eq split: option.splits)
  show "SE350_USING decl after_u body_u u \<noteq> Some (Break, u')"
    and "SE350_USING decl after_u body_u u \<noteq> Some (Continue, u')"
    by (simp_all add: SE350_USING_eq split: option.splits)
next
  assume "before_o g = Some (x_o, g1)" "before_i g1 = Some (x_i, g2)"
    "block_stmt pre g2 = Some (Normal, g3)" "after_i g3 = Some (y_i, g4)"
    "block_stmt rest g4 = Some (Normal, g5)" "after_o g5 = Some (y_o, g6)"
  then show "SE350_SCOPE before_o after_o
      (block_stmt
         (SE350_SCOPE before_i after_i (block_stmt (pre @ SE350_SCOPE_BREAK # post)) # rest))
      g = Some (Normal, g6)"
    by (simp add: SE350_SCOPE_eq block_stmt_append break_app)
next
  assume b: "\<forall>s. \<exists>x. before_n s = Some (x, fb s)"
    and k: "\<forall>s. block_stmt pre_n s = Some (Normal, fp s)"
    and a: "\<forall>s. \<exists>y. after_n s = Some (y, fa s)"
  have "SE350_SCOPE before_n after_n (block_stmt (pre_n @ SE350_SCOPE_BREAK # post_n)) s =
      Some (Normal, fa (fp (fb s)))" for s
  proof -
    obtain x where "before_n s = Some (x, fb s)"
      using b by blast
    moreover obtain y where "after_n (fp (fb s)) = Some (y, fa (fp (fb s)))"
      using a by blast
    ultimately show ?thesis
      using k by (simp add: SE350_SCOPE_eq block_stmt_append break_app)
  qed
  then show "counted_loop (int n)
      (SE350_SCOPE before_n after_n (block_stmt (pre_n @ SE350_SCOPE_BREAK # post_n))) w =
      Some (Normal, ((\<lambda>s. fa (fp (fb s))) ^^ n) w)"
    by (rule counted_loop_iter)
qed

theorem SE350_break_stays_inside_witness:
  "(call ''outer before'' [] = Some (0, [''outer before'']) \<and>
    call ''inner before'' [''outer before''] = Some (0, [''outer before'', ''inner before'']) \<and>
    block_stmt [emit ''first''] [''outer before'', ''inner before''] =
      Some (Normal, [''outer before'', ''inner before'', ''first'']) \<and>
    call ''inner after'' [''outer before'', ''inner before'', ''first''] =
      Some (0, [''outer before'', ''inner before'', ''first'', ''inner after'']) \<and>
    block_stmt [emit ''rest''] [''outer before'', ''inner before'', ''first'', ''inner after''] =
      Some (Normal, [''outer before'', ''inner before'', ''first'', ''inner after'', ''rest'']) \<and>
    call ''outer after''
      [''outer before'', ''inner before'', ''first'', ''inner after'', ''rest''] =
      Some (0, [''outer before'', ''inner before'', ''first'', ''inner after'', ''rest'',
        ''outer after'']) \<and>
    SE350_SCOPE (call ''outer before'') (call ''outer after'')
      (block_stmt
         (SE350_SCOPE (call ''inner before'') (call ''inner after'')
            (block_stmt ([emit ''first''] @ SE350_SCOPE_BREAK # [emit ''skipped'']))
          # [emit ''rest''])) [] =
      Some (Normal, [''outer before'', ''inner before'', ''first'', ''inner after'', ''rest'',
        ''outer after''])) \<and>
   ((\<forall>s. \<exists>x. call ''before'' s = Some (x, s @ [''before''])) \<and>
    (\<forall>s. block_stmt [emit ''first''] s = Some (Normal, s @ [''first''])) \<and>
    (\<forall>s. \<exists>y. call ''after'' s = Some (y, s @ [''after''])) \<and>
    counted_loop 2
      (SE350_SCOPE (call ''before'') (call ''after'')
         (block_stmt ([emit ''first''] @ SE350_SCOPE_BREAK # [emit ''skipped'']))) [] =
      Some (Normal, [''before'', ''first'', ''after'', ''before'', ''first'', ''after'']))"
proof -
  note T = SE350_break_stays_inside
    [where before_o = "call ''outer before''" and g = "[]" and x_o = 0
       and ?g1.0 = "[''outer before'']" and before_i = "call ''inner before''" and x_i = 0
       and ?g2.0 = "[''outer before'', ''inner before'']" and pre = "[emit ''first'']"
       and ?g3.0 = "[''outer before'', ''inner before'', ''first'']"
       and after_i = "call ''inner after''" and y_i = 0
       and ?g4.0 = "[''outer before'', ''inner before'', ''first'', ''inner after'']"
       and rest = "[emit ''rest'']"
       and ?g5.0 = "[''outer before'', ''inner before'', ''first'', ''inner after'', ''rest'']"
       and after_o = "call ''outer after''" and y_o = 0
       and ?g6.0 = "[''outer before'', ''inner before'', ''first'', ''inner after'', ''rest'',
         ''outer after'']"
       and post = "[emit ''skipped'']"
       and before_n = "call ''before''" and fb = "\<lambda>s. s @ [''before'']"
       and pre_n = "[emit ''first'']" and fp = "\<lambda>s. s @ [''first'']"
       and after_n = "call ''after''" and fa = "\<lambda>s. s @ [''after'']"
       and post_n = "[emit ''skipped'']" and n = 2 and w = "[]"]
  have bo: "call ''outer before'' [] = Some (0, [''outer before''])"
    by (simp add: call_app)
  have bi: "call ''inner before'' [''outer before''] =
      Some (0, [''outer before'', ''inner before''])"
    by (simp add: call_app)
  have k: "block_stmt [emit ''first''] [''outer before'', ''inner before''] =
      Some (Normal, [''outer before'', ''inner before'', ''first''])"
    by (simp add: emit_app)
  have ai: "call ''inner after'' [''outer before'', ''inner before'', ''first''] =
      Some (0, [''outer before'', ''inner before'', ''first'', ''inner after''])"
    by (simp add: call_app)
  have r: "block_stmt [emit ''rest'']
      [''outer before'', ''inner before'', ''first'', ''inner after''] =
      Some (Normal, [''outer before'', ''inner before'', ''first'', ''inner after'', ''rest''])"
    by (simp add: emit_app)
  have ao: "call ''outer after''
      [''outer before'', ''inner before'', ''first'', ''inner after'', ''rest''] =
      Some (0, [''outer before'', ''inner before'', ''first'', ''inner after'', ''rest'',
        ''outer after''])"
    by (simp add: call_app)
  have bn: "\<forall>s. \<exists>x. call ''before'' s = Some (x, s @ [''before''])"
    by (simp add: call_app)
  have kn: "\<forall>s. block_stmt [emit ''first''] s = Some (Normal, s @ [''first''])"
    by (simp add: emit_app)
  have an: "\<forall>s. \<exists>y. call ''after'' s = Some (y, s @ [''after''])"
    by (simp add: call_app)
  have c1: "SE350_SCOPE (call ''outer before'') (call ''outer after'')
      (block_stmt
         (SE350_SCOPE (call ''inner before'') (call ''inner after'')
            (block_stmt ([emit ''first''] @ SE350_SCOPE_BREAK # [emit ''skipped'']))
          # [emit ''rest''])) [] =
      Some (Normal, [''outer before'', ''inner before'', ''first'', ''inner after'', ''rest'',
        ''outer after''])"
    by (rule T [THEN conjunct2, THEN conjunct2, THEN conjunct2, THEN conjunct1,
          THEN mp, OF bo, THEN mp, OF bi, THEN mp, OF k, THEN mp, OF ai,
          THEN mp, OF r, THEN mp, OF ao])
  have c2: "counted_loop 2
      (SE350_SCOPE (call ''before'') (call ''after'')
         (block_stmt ([emit ''first''] @ SE350_SCOPE_BREAK # [emit ''skipped'']))) [] =
      Some (Normal, [''before'', ''first'', ''after'', ''before'', ''first'', ''after''])"
    using T [THEN conjunct2, THEN conjunct2, THEN conjunct2, THEN conjunct2,
          THEN mp, OF bn, THEN mp, OF kn, THEN mp, OF an]
    by (simp add: numeral_2_eq_2)
  show ?thesis
    by (intro conjI) (rule bo bi k ai r ao bn kn an c1 c2)+
qed

section \<open>SE350_SCOPE_EXIT\<close>

text \<open>
  C7. \<open>SE350_SCOPE_EXIT(after_expr)\<close> in front of a block is the same statement as
  \<open>SE350_SCOPE(noop, after_expr)\<close> in front of that block, for every before-expression
  \<open>noop\<close> that comes back and leaves the state as it is: the two yield the same status and
  the same state from every state, so also the same log when the state holds one.
\<close>

theorem SE350_SCOPE_EXIT_noop_before:
  "(\<forall>s. \<exists>v. noop s = Some (v, s)) \<Longrightarrow>
   SE350_SCOPE_EXIT after_expr body = SE350_SCOPE noop after_expr body"
proof
  fix s
  assume "\<forall>s. \<exists>v. noop s = Some (v, s)"
  then obtain v where "noop s = Some (v, s)"
    by blast
  then show "SE350_SCOPE_EXIT after_expr body s = SE350_SCOPE noop after_expr body s"
    by (simp add: SE350_SCOPE_EXIT_eq SE350_SCOPE_eq)
qed

theorem SE350_SCOPE_EXIT_noop_before_witness:
  "(\<forall>s :: string list. \<exists>v. no_expr s = Some (v, s)) \<and>
   SE350_SCOPE_EXIT (call ''after'') (emit ''block'') =
     SE350_SCOPE no_expr (call ''after'') (emit ''block'')"
proof -
  have n: "\<forall>s :: string list. \<exists>v. no_expr s = Some (v, s)"
    by (simp add: no_expr_app)
  have c: "SE350_SCOPE_EXIT (call ''after'') (emit ''block'') =
      SE350_SCOPE no_expr (call ''after'') (emit ''block'')"
    by (rule SE350_SCOPE_EXIT_noop_before [where noop = no_expr, OF n])
  show ?thesis
    by (intro conjI) (rule n c)+
qed

section \<open>The assertion scenario\<close>

text \<open>
  C8. With \<^verbatim>\<open>x = 1\<close> as before-expression and \<^verbatim>\<open>x = 2\<close> as after-expression around the
  block \<^verbatim>\<open>assert(x == 1);\<close>, from any state: the assertion holds (the statement comes
  back, where the opposite assertion aborts), and behind the statement \<open>x\<close> is 2.
\<close>

theorem SE350_SCOPE_assert_scenario:
  "SE350_SCOPE (assign_x 1) (assign_x 2) (assert_stmt (\<lambda>s. var_x s = 1)) s =
     Some (Normal, s\<lparr>var_x := 2\<rparr>) \<and>
   var_x (s\<lparr>var_x := 2\<rparr>) = 2 \<and>
   SE350_SCOPE (assign_x 1) (assign_x 2) (assert_stmt (\<lambda>s. var_x s \<noteq> 1)) s = None"
  by (simp add: SE350_SCOPE_eq assign_x_def assert_stmt_def)

theorem SE350_SCOPE_assert_scenario_witness:
  "SE350_SCOPE (assign_x 1) (assign_x 2) (assert_stmt (\<lambda>s. var_x s = 1)) \<lparr>var_x = 0\<rparr> =
     Some (Normal, \<lparr>var_x = 2\<rparr>)"
  using SE350_SCOPE_assert_scenario [of "\<lparr>var_x = 0\<rparr>"] by simp

section \<open>continue in the guarded block\<close>

text \<open>
  C9. A \<^verbatim>\<open>continue\<close> that is a statement of the guarded block of \<open>SE350_SCOPE\<close>,
  \<open>SE350_SCOPE_EXIT\<close> or \<open>SE350_USING\<close> ends the block at once: the statements \<open>post\<close>
  behind it are not executed, the block is not entered again, the after-action runs once,
  and the result is the one \<open>SE350_SCOPE_BREAK\<close> gives in its place.
\<close>

theorem SE350_continue_leaves_block:
  "(before_expr s = Some (x, s1) \<longrightarrow> block_stmt pre s1 = Some (Normal, s2) \<longrightarrow>
    after_expr s2 = Some (y, s3) \<longrightarrow>
      SE350_SCOPE before_expr after_expr (block_stmt (pre @ continue_stmt # post)) s =
        Some (Normal, s3) \<and>
      SE350_SCOPE before_expr after_expr (block_stmt (pre @ SE350_SCOPE_BREAK # post)) s =
        Some (Normal, s3)) \<and>
   (block_stmt pre_e t = Some (Normal, t2) \<longrightarrow> after_e t2 = Some (y_e, t3) \<longrightarrow>
      SE350_SCOPE_EXIT after_e (block_stmt (pre_e @ continue_stmt # post_e)) t =
        Some (Normal, t3) \<and>
      SE350_SCOPE_EXIT after_e (block_stmt (pre_e @ SE350_SCOPE_BREAK # post_e)) t =
        Some (Normal, t3)) \<and>
   (decl u = Some (v, u1) \<longrightarrow> block_stmt pre_u (v, u1) = Some (Normal, (v2, u2)) \<longrightarrow>
    after_u (v2, u2) = Some (y_u, (v3, u3)) \<longrightarrow>
      SE350_USING decl after_u (block_stmt (pre_u @ continue_stmt # post_u)) u =
        Some (Normal, u3) \<and>
      SE350_USING decl after_u (block_stmt (pre_u @ SE350_SCOPE_BREAK # post_u)) u =
        Some (Normal, u3))"
  by (simp add: SE350_SCOPE_eq SE350_SCOPE_EXIT_eq SE350_USING_eq block_stmt_append
      break_app continue_app)


theorem SE350_continue_leaves_block_witness:
  "(call ''before'' [] = Some (0, [''before'']) \<and>
    block_stmt [emit ''first''] [''before''] = Some (Normal, [''before'', ''first'']) \<and>
    call ''after'' [''before'', ''first''] = Some (0, [''before'', ''first'', ''after'']) \<and>
    SE350_SCOPE (call ''before'') (call ''after'')
      (block_stmt ([emit ''first''] @ continue_stmt # [emit ''skipped''])) [] =
        Some (Normal, [''before'', ''first'', ''after''])) \<and>
   (block_stmt [emit ''first''] [] = Some (Normal, [''first'']) \<and>
    call ''after'' [''first''] = Some (0, [''first'', ''after'']) \<and>
    SE350_SCOPE_EXIT (call ''after'')
      (block_stmt ([emit ''first''] @ continue_stmt # [emit ''skipped''])) [] =
        Some (Normal, [''first'', ''after''])) \<and>
   (acquire ''p'' [] = Some (''p'', [''request p'']) \<and>
    block_stmt [outer_s (emit ''first'')] (''p'', [''request p'']) =
      Some (Normal, (''p'', [''request p'', ''first''])) \<and>
    release (''p'', [''request p'', ''first'']) =
      Some (0, (''p'', [''request p'', ''first'', ''release p''])) \<and>
    SE350_USING (acquire ''p'') release
      (block_stmt ([outer_s (emit ''first'')] @ continue_stmt # [outer_s (emit ''skipped'')]))
      [] = Some (Normal, [''request p'', ''first'', ''release p'']))"
proof -
  note T = SE350_continue_leaves_block
    [where before_expr = "call ''before''" and s = "[]" and x = 0 and ?s1.0 = "[''before'']"
       and pre = "[emit ''first'']" and ?s2.0 = "[''before'', ''first'']"
       and after_expr = "call ''after''" and y = 0
       and ?s3.0 = "[''before'', ''first'', ''after'']" and post = "[emit ''skipped'']"
       and pre_e = "[emit ''first'']" and t = "[]" and ?t2.0 = "[''first'']"
       and after_e = "call ''after''" and y_e = 0 and ?t3.0 = "[''first'', ''after'']"
       and post_e = "[emit ''skipped'']"
       and decl = "acquire ''p''" and u = "[]" and v = "''p''" and ?u1.0 = "[''request p'']"
       and pre_u = "[outer_s (emit ''first'')]" and ?v2.0 = "''p''"
       and ?u2.0 = "[''request p'', ''first'']" and after_u = release and y_u = 0
       and ?v3.0 = "''p''" and ?u3.0 = "[''request p'', ''first'', ''release p'']"
       and post_u = "[outer_s (emit ''skipped'')]"]
  have b: "call ''before'' [] = Some (0, [''before''])"
    by (simp add: call_app)
  have k: "block_stmt [emit ''first''] [''before''] = Some (Normal, [''before'', ''first''])"
    by (simp add: emit_app)
  have a: "call ''after'' [''before'', ''first''] = Some (0, [''before'', ''first'', ''after''])"
    by (simp add: call_app)
  have ke: "block_stmt [emit ''first''] [] = Some (Normal, [''first''])"
    by (simp add: emit_app)
  have ae: "call ''after'' [''first''] = Some (0, [''first'', ''after''])"
    by (simp add: call_app)
  have d: "acquire ''p'' [] = Some (''p'', [''request p''])"
    by (simp add: acquire_app)
  have ku: "block_stmt [outer_s (emit ''first'')] (''p'', [''request p'']) =
      Some (Normal, (''p'', [''request p'', ''first'']))"
    by (simp add: outer_s_app emit_app)
  have au: "release (''p'', [''request p'', ''first'']) =
      Some (0, (''p'', [''request p'', ''first'', ''release p'']))"
    by (simp add: release_app)
  have c1: "SE350_SCOPE (call ''before'') (call ''after'')
      (block_stmt ([emit ''first''] @ continue_stmt # [emit ''skipped''])) [] =
        Some (Normal, [''before'', ''first'', ''after''])"
    by (rule T [THEN conjunct1, THEN mp, OF b, THEN mp, OF k, THEN mp, OF a, THEN conjunct1])
  have c2: "SE350_SCOPE_EXIT (call ''after'')
      (block_stmt ([emit ''first''] @ continue_stmt # [emit ''skipped''])) [] =
        Some (Normal, [''first'', ''after''])"
    by (rule T [THEN conjunct2, THEN conjunct1, THEN mp, OF ke, THEN mp, OF ae,
          THEN conjunct1])
  have c3: "SE350_USING (acquire ''p'') release
      (block_stmt ([outer_s (emit ''first'')] @ continue_stmt # [outer_s (emit ''skipped'')]))
      [] = Some (Normal, [''request p'', ''first'', ''release p''])"
    by (rule T [THEN conjunct2, THEN conjunct2, THEN mp, OF d, THEN mp, OF ku, THEN mp, OF au,
          THEN conjunct1])
  show ?thesis
    by (intro conjI) (rule b k a ke ae d ku au c1 c2 c3)+
qed

section \<open>What the macros themselves write\<close>

text \<open>
  C10. Any part \<open>obs\<close> of the caller's state that the caller's expressions and block
  leave unchanged is unchanged by \<open>SE350_SCOPE\<close>, \<open>SE350_SCOPE_EXIT\<close> and
  \<open>SE350_USING\<close>; with empty expressions and an empty block the three statements
  change nothing at all. The only thing the macros write is the flag (and, for
  \<open>SE350_USING\<close>, the declared variable), and the state behind the statement is the
  state of its loops without the flag.
\<close>

theorem SE350_frame:
  "((\<forall>s v s'. before_expr s = Some (v, s') \<longrightarrow> obs s' = obs s) \<longrightarrow>
    (\<forall>s st s'. body s = Some (st, s') \<longrightarrow> obs s' = obs s) \<longrightarrow>
    (\<forall>s v s'. after_expr s = Some (v, s') \<longrightarrow> obs s' = obs s) \<longrightarrow>
    SE350_SCOPE before_expr after_expr body s = Some (st, s') \<longrightarrow> obs s' = obs s) \<and>
   ((\<forall>s st s'. body_e s = Some (st, s') \<longrightarrow> obs s' = obs s) \<longrightarrow>
    (\<forall>s v s'. after_e s = Some (v, s') \<longrightarrow> obs s' = obs s) \<longrightarrow>
    SE350_SCOPE_EXIT after_e body_e t = Some (st_e, t') \<longrightarrow> obs t' = obs t) \<and>
   ((\<forall>s v s'. decl s = Some (v, s') \<longrightarrow> obs s' = obs s) \<longrightarrow>
    (\<forall>v s st v' s'. body_u (v, s) = Some (st, (v', s')) \<longrightarrow> obs s' = obs s) \<longrightarrow>
    (\<forall>v s y v' s'. after_u (v, s) = Some (y, (v', s')) \<longrightarrow> obs s' = obs s) \<longrightarrow>
    SE350_USING decl after_u body_u u = Some (st_u, u') \<longrightarrow> obs u' = obs u) \<and>
   SE350_SCOPE (lit 0) (lit 0) (block_stmt []) w = Some (Normal, w) \<and>
   SE350_SCOPE_EXIT (lit 0) (block_stmt []) w = Some (Normal, w) \<and>
   SE350_USING (lit 0) (lit 0) (block_stmt []) w = Some (Normal, w) \<and>
   SE350_SCOPE before_l after_l body_l w =
     (case SE350_SCOPE_live before_l after_l body_l w of None \<Rightarrow> None
      | Some (st, (f, w')) \<Rightarrow> Some (st, w')) \<and>
   SE350_USING decl_l after_m body_m w =
     (case SE350_USING_live decl_l after_m body_m w of None \<Rightarrow> None
      | Some (st, (f, w')) \<Rightarrow> Some (st, w'))"
proof (intro conjI impI)
  assume b: "\<forall>s v s'. before_expr s = Some (v, s') \<longrightarrow> obs s' = obs s"
    and k: "\<forall>s st s'. body s = Some (st, s') \<longrightarrow> obs s' = obs s"
    and a: "\<forall>s v s'. after_expr s = Some (v, s') \<longrightarrow> obs s' = obs s"
    and r: "SE350_SCOPE before_expr after_expr body s = Some (st, s')"
  from r obtain x s1 st1 s2 where 1: "before_expr s = Some (x, s1)" "body s1 = Some (st1, s2)"
    and 2: "st1 = Return \<and> s' = s2 \<or> (\<exists>y. after_expr s2 = Some (y, s'))"
    by (auto simp add: SE350_SCOPE_eq split: option.splits if_splits)
  from 1 b k have "obs s2 = obs s"
    by metis
  with 2 a show "obs s' = obs s"
    by metis
next
  assume k: "\<forall>s st s'. body_e s = Some (st, s') \<longrightarrow> obs s' = obs s"
    and a: "\<forall>s v s'. after_e s = Some (v, s') \<longrightarrow> obs s' = obs s"
    and r: "SE350_SCOPE_EXIT after_e body_e t = Some (st_e, t')"
  from r obtain st1 s2 where 1: "body_e t = Some (st1, s2)"
    and 2: "st1 = Return \<and> t' = s2 \<or> (\<exists>y. after_e s2 = Some (y, t'))"
    by (auto simp add: SE350_SCOPE_EXIT_eq split: option.splits if_splits)
  from 1 k have "obs s2 = obs t"
    by metis
  with 2 a show "obs t' = obs t"
    by metis
next
  assume d: "\<forall>s v s'. decl s = Some (v, s') \<longrightarrow> obs s' = obs s"
    and k: "\<forall>v s st v' s'. body_u (v, s) = Some (st, (v', s')) \<longrightarrow> obs s' = obs s"
    and a: "\<forall>v s y v' s'. after_u (v, s) = Some (y, (v', s')) \<longrightarrow> obs s' = obs s"
    and r: "SE350_USING decl after_u body_u u = Some (st_u, u')"
  from r obtain v s1 st1 v2 s2 where 1: "decl u = Some (v, s1)"
      "body_u (v, s1) = Some (st1, (v2, s2))"
    and 2: "st1 = Return \<and> u' = s2 \<or> (\<exists>y v3. after_u (v2, s2) = Some (y, (v3, u')))"
    by (auto simp add: SE350_USING_eq split: option.splits if_splits)
  from 1 d k have "obs s2 = obs u"
    by metis
  with 2 a show "obs u' = obs u"
    by metis
next
  show "SE350_SCOPE (lit 0) (lit 0) (block_stmt []) w = Some (Normal, w)"
    by (simp add: SE350_SCOPE_eq lit_app)
  show "SE350_SCOPE_EXIT (lit 0) (block_stmt []) w = Some (Normal, w)"
    by (simp add: SE350_SCOPE_EXIT_eq lit_app)
  show "SE350_USING (lit 0) (lit 0) (block_stmt []) w = Some (Normal, w)"
    by (simp add: SE350_USING_eq lit_app)
  show "SE350_SCOPE before_l after_l body_l w =
     (case SE350_SCOPE_live before_l after_l body_l w of None \<Rightarrow> None
      | Some (st, (f, w')) \<Rightarrow> Some (st, w'))"
    by (rule SE350_SCOPE_leaves)
  show "SE350_USING decl_l after_m body_m w =
     (case SE350_USING_live decl_l after_m body_m w of None \<Rightarrow> None
      | Some (st, (f, w')) \<Rightarrow> Some (st, w'))"
    by (rule SE350_USING_leaves)
qed


theorem SE350_frame_witness:
  "(SE350_SCOPE (outer_e (call ''before'')) (outer_e (call ''after'')) (outer_s (emit ''block''))
      (7 :: int, []) = Some (Normal, (7 :: int, [''before'', ''block'', ''after''])) \<and>
    fst (7 :: int, [''before'', ''block'', ''after'']) = fst (7 :: int, [] :: string list)) \<and>
   (SE350_SCOPE_EXIT (outer_e (call ''after'')) (outer_s (emit ''block'')) (7 :: int, []) =
      Some (Normal, (7 :: int, [''block'', ''after''])) \<and>
    fst (7 :: int, [''block'', ''after'']) = fst (7 :: int, [] :: string list)) \<and>
   (SE350_USING (outer_e (acquire ''p'')) (past_e release) (outer_s (outer_s (emit ''use'')))
      (7 :: int, []) = Some (Normal, (7 :: int, [''request p'', ''use'', ''release p''])) \<and>
    fst (7 :: int, [''request p'', ''use'', ''release p'']) = fst (7 :: int, [] :: string list))"
proof -
  note T = SE350_frame
    [where obs = "fst :: int \<times> string list \<Rightarrow> int"
       and before_expr = "outer_e (call ''before'')" and body = "outer_s (emit ''block'')"
       and after_expr = "outer_e (call ''after'')" and s = "(7 :: int, [])" and st = Normal
       and s' = "(7 :: int, [''before'', ''block'', ''after''])"
       and body_e = "outer_s (emit ''block'')" and after_e = "outer_e (call ''after'')"
       and t = "(7 :: int, [])" and st_e = Normal and t' = "(7 :: int, [''block'', ''after''])"
       and decl = "outer_e (acquire ''p'')" and body_u = "outer_s (outer_s (emit ''use''))"
       and after_u = "past_e release" and u = "(7 :: int, [])" and st_u = Normal
       and u' = "(7 :: int, [''request p'', ''use'', ''release p''])"]
  have b: "\<forall>s v s'. outer_e (call ''before'') s = Some (v, s') \<longrightarrow>
      fst s' = fst (s :: int \<times> string list)"
    by (auto simp add: outer_e_def call_app)
  have k: "\<forall>s st s'. outer_s (emit ''block'') s = Some (st, s') \<longrightarrow>
      fst s' = fst (s :: int \<times> string list)"
    by (auto simp add: outer_s_def emit_app)
  have a: "\<forall>s v s'. outer_e (call ''after'') s = Some (v, s') \<longrightarrow>
      fst s' = fst (s :: int \<times> string list)"
    by (auto simp add: outer_e_def call_app)
  have r: "SE350_SCOPE (outer_e (call ''before'')) (outer_e (call ''after''))
      (outer_s (emit ''block'')) (7 :: int, []) =
      Some (Normal, (7 :: int, [''before'', ''block'', ''after'']))"
    by (simp add: SE350_SCOPE_eq outer_e_app outer_s_app call_app emit_app)
  have re: "SE350_SCOPE_EXIT (outer_e (call ''after'')) (outer_s (emit ''block''))
      (7 :: int, []) = Some (Normal, (7 :: int, [''block'', ''after'']))"
    by (simp add: SE350_SCOPE_EXIT_eq outer_e_app outer_s_app call_app emit_app)
  have d: "\<forall>s v s'. outer_e (acquire ''p'') s = Some (v, s') \<longrightarrow>
      fst s' = fst (s :: int \<times> string list)"
    by (auto simp add: outer_e_def acquire_app)
  have ku: "\<forall>v s st v' s'.
      outer_s (outer_s (emit ''use'')) (v :: string, s) = Some (st, (v', s')) \<longrightarrow>
      fst s' = fst (s :: int \<times> string list)"
    by (auto simp add: outer_s_def emit_app)
  have au: "\<forall>v s y v' s'. past_e release (v, s) = Some (y, (v', s')) \<longrightarrow>
      fst s' = fst (s :: int \<times> string list)"
    by (auto simp add: past_e_def release_app)
  have ru: "SE350_USING (outer_e (acquire ''p'')) (past_e release)
      (outer_s (outer_s (emit ''use''))) (7 :: int, []) =
      Some (Normal, (7 :: int, [''request p'', ''use'', ''release p'']))"
    by (simp add: SE350_USING_eq outer_e_app outer_s_app past_e_app acquire_app release_app
        emit_app)
  have c1: "fst (7 :: int, [''before'', ''block'', ''after'']) = fst (7 :: int, [] :: string list)"
    by (rule T [THEN conjunct1, THEN mp, OF b, THEN mp, OF k, THEN mp, OF a, THEN mp, OF r])
  have c2: "fst (7 :: int, [''block'', ''after'']) = fst (7 :: int, [] :: string list)"
    by (rule T [THEN conjunct2, THEN conjunct1, THEN mp, OF k, THEN mp, OF a, THEN mp, OF re])
  have c3: "fst (7 :: int, [''request p'', ''use'', ''release p'']) =
      fst (7 :: int, [] :: string list)"
    by (rule T [THEN conjunct2, THEN conjunct2, THEN conjunct1,
          THEN mp, OF d, THEN mp, OF ku, THEN mp, OF au, THEN mp, OF ru])
  show ?thesis
    by (intro conjI) (rule r re ru c1 c2 c3)+
qed

end
